theory Spec2Isabelle
  imports Complex_Main "HOL-Library.Sublist"
begin

section \<open>Python string and list primitives used by the sources\<close>

text \<open>
  Strings are lists of characters. The case mappings and the whitespace class are those of
  Python's \<^verbatim>\<open>str\<close> methods on ASCII text: \<^verbatim>\<open>lower\<close> maps A..Z to a..z and leaves
  every other character alone, and whitespace is space, tab, newline, carriage return,
  vertical tab, form feed and the four separators 0x1C..0x1F.
\<close>

definition upper_letters :: string where
  "upper_letters = ''ABCDEFGHIJKLMNOPQRSTUVWXYZ''"

definition lower_letters :: string where
  "lower_letters = ''abcdefghijklmnopqrstuvwxyz''"

definition lower_char :: "char \<Rightarrow> char" where
  "lower_char c = (case map_of (zip upper_letters lower_letters) c of Some d \<Rightarrow> d | None \<Rightarrow> c)"

definition upper_char :: "char \<Rightarrow> char" where
  "upper_char c = (case map_of (zip lower_letters upper_letters) c of Some d \<Rightarrow> d | None \<Rightarrow> c)"

definition is_cased :: "char \<Rightarrow> bool" where
  "is_cased c = (c \<in> set upper_letters \<or> c \<in> set lower_letters)"

text \<open>\<^verbatim>\<open>s.lower()\<close>\<close>

definition py_lower :: "string \<Rightarrow> string" where
  "py_lower s = map lower_char s"

text \<open>\<^verbatim>\<open>s.title()\<close>: a cased character is upper-cased when the character before it is
  not cased, and lower-cased otherwise.\<close>

fun title_from :: "bool \<Rightarrow> string \<Rightarrow> string" where
  "title_from prev [] = []"
| "title_from prev (c # cs) =
     (if is_cased c then (if prev then lower_char c else upper_char c) # title_from True cs
      else c # title_from False cs)"

definition py_title :: "string \<Rightarrow> string" where
  "py_title s = title_from False s"

definition is_space :: "char \<Rightarrow> bool" where
  "is_space c = (c \<in> set [CHR '' '', CHR 0x09, CHR 0x0A, CHR 0x0B, CHR 0x0C, CHR 0x0D,
                           CHR 0x1C, CHR 0x1D, CHR 0x1E, CHR 0x1F])"

text \<open>\<^verbatim>\<open>s.strip()\<close>\<close>

definition py_strip :: "string \<Rightarrow> string" where
  "py_strip s = rev (dropWhile is_space (rev (dropWhile is_space s)))"

text \<open>\<^verbatim>\<open>s.split()\<close>: the maximal runs of characters that are not whitespace.\<close>

fun split_acc :: "string \<Rightarrow> string \<Rightarrow> string list" where
  "split_acc cur [] = (if cur = [] then [] else [rev cur])"
| "split_acc cur (c # cs) =
     (if is_space c then (if cur = [] then split_acc [] cs else rev cur # split_acc [] cs)
      else split_acc (c # cur) cs)"

definition py_split :: "string \<Rightarrow> string list" where
  "py_split s = split_acc [] s"

text \<open>\<^verbatim>\<open>needle in hay\<close> on strings: \<open>needle\<close> occurs as a contiguous block of \<open>hay\<close>.\<close>

fun py_in :: "'a list \<Rightarrow> 'a list \<Rightarrow> bool" where
  "py_in needle [] = (needle = [])"
| "py_in needle (h # hs) = (prefix needle (h # hs) \<or> py_in needle hs)"

text \<open>\<^verbatim>\<open>any(k in s for k in ks)\<close>\<close>

definition any_in :: "string list \<Rightarrow> string \<Rightarrow> bool" where
  "any_in ks s = list_ex (\<lambda>k. py_in k s) ks"

text \<open>\<^verbatim>\<open>xs[-n:]\<close> for a positive literal \<open>n\<close>: the last \<open>n\<close> elements, the whole list when
  it is shorter.\<close>

definition py_last_n :: "nat \<Rightarrow> 'a list \<Rightarrow> 'a list" where
  "py_last_n n xs = drop (length xs - n) xs"

text \<open>\<^verbatim>\<open>xs[:k]\<close> for an integer \<open>k\<close>: a negative \<open>k\<close> counts from the end.\<close>

definition py_take :: "int \<Rightarrow> 'a list \<Rightarrow> 'a list" where
  "py_take k xs = (if 0 \<le> k then take (nat k) xs else take (nat (int (length xs) + k)) xs)"

text \<open>\<^verbatim>\<open>xs.index(x)\<close>: the first position of \<open>x\<close>; \<open>None\<close> stands for ValueError.\<close>

fun py_index :: "'a list \<Rightarrow> 'a \<Rightarrow> nat option" where
  "py_index [] x = None"
| "py_index (y # ys) x = (if y = x then Some 0 else map_option Suc (py_index ys x))"

datatype py_error = IndexError | AttributeError

text \<open>\<^verbatim>\<open>xs[0]\<close>, which raises on the empty list.\<close>

definition py_first :: "'a list \<Rightarrow> py_error + 'a" where
  "py_first xs = (case xs of [] \<Rightarrow> Inl IndexError | x # _ \<Rightarrow> Inr x)"


section \<open>The regular expressions of the sources\<close>

text \<open>
  The patterns handed to \<^verbatim>\<open>re.search\<close> and \<^verbatim>\<open>re.match\<close> use literals, character classes,
  concatenation, alternation, \<^verbatim>\<open>?\<close>, \<^verbatim>\<open>+\<close> on a single character class, capturing groups
  and the anchors \<^verbatim>\<open>^\<close>, \<^verbatim>\<open>$\<close> and \<^verbatim>\<open>\b\<close>. \<open>Many1\<close> is \<^verbatim>\<open>+\<close> on a class.
\<close>

datatype regex =
    Eps
  | Chr "char \<Rightarrow> bool"
  | Many1 "char \<Rightarrow> bool"
  | Seq regex regex
  | Alt regex regex
  | Opt regex
  | Group nat regex
  | Bol
  | Eol
  | WordB

text \<open>
  A matcher state: the characters before the current position (nearest first), the
  characters from the current position on, and the texts captured so far (latest first).
\<close>

type_synonym mstate = "string \<times> string \<times> (nat \<times> string) list"

definition newline :: char where
  "newline = CHR 0x0A"

text \<open>\<^verbatim>\<open>.\<close> matches every character but the newline.\<close>

definition dot :: "char \<Rightarrow> bool" where
  "dot c = (c \<noteq> newline)"

text \<open>\<^verbatim>\<open>\w\<close>: letters, digits and the underscore.\<close>

definition is_word :: "char \<Rightarrow> bool" where
  "is_word c = (c \<in> set upper_letters \<or> c \<in> set lower_letters \<or> c \<in> set ''0123456789_'')"

definition word_before :: "string \<Rightarrow> bool" where
  "word_before xs = (case xs of [] \<Rightarrow> False | c # _ \<Rightarrow> is_word c)"

text \<open>
  All the ways a pattern matches from a state, in the order in which the backtracking
  matcher of \<^verbatim>\<open>re\<close> tries them: the left alternative first, the optional part present
  first, the longest repetition first. The head of the list is the match \<^verbatim>\<open>re\<close> reports.
\<close>

fun rmatch :: "regex \<Rightarrow> mstate \<Rightarrow> mstate list" where
  "rmatch Eps st = [st]"
| "rmatch (Chr P) (pre, rest, caps) =
     (case rest of [] \<Rightarrow> [] | c # cs \<Rightarrow> if P c then [(c # pre, cs, caps)] else [])"
| "rmatch (Many1 P) (pre, rest, caps) =
     map (\<lambda>k. (rev (take k rest) @ pre, drop k rest, caps))
         (rev [1 ..< Suc (length (takeWhile P rest))])"
| "rmatch (Seq a b) st = concat (map (rmatch b) (rmatch a st))"
| "rmatch (Alt a b) st = rmatch a st @ rmatch b st"
| "rmatch (Opt a) st = rmatch a st @ [st]"
| "rmatch (Group n a) (pre, rest, caps) =
     map (\<lambda>(pre', rest', caps'). (pre', rest', (n, rev (take (length pre' - length pre) pre')) # caps'))
         (rmatch a (pre, rest, caps))"
| "rmatch Bol (pre, rest, caps) = (if pre = [] then [(pre, rest, caps)] else [])"
| "rmatch Eol (pre, rest, caps) =
     (if rest = [] \<or> rest = [newline] then [(pre, rest, caps)] else [])"
| "rmatch WordB (pre, rest, caps) =
     (if word_before pre \<noteq> word_before rest then [(pre, rest, caps)] else [])"

text \<open>The string a state is a position of.\<close>

definition subject :: "mstate \<Rightarrow> string" where
  "subject st = rev (fst st) @ fst (snd st)"

text \<open>\<^verbatim>\<open>re.match(p, s)\<close>: a match at the start of \<open>s\<close>.\<close>

definition re_match :: "regex \<Rightarrow> string \<Rightarrow> mstate option" where
  "re_match p s = (case rmatch p ([], s, []) of [] \<Rightarrow> None | m # _ \<Rightarrow> Some m)"

text \<open>\<^verbatim>\<open>re.search(p, s)\<close>: the match at the leftmost position that has one.\<close>

fun re_search_from :: "regex \<Rightarrow> string \<Rightarrow> string \<Rightarrow> mstate option" where
  "re_search_from p pre [] =
     (case rmatch p (pre, [], []) of m # _ \<Rightarrow> Some m | [] \<Rightarrow> None)"
| "re_search_from p pre (c # cs) =
     (case rmatch p (pre, c # cs, []) of
        m # _ \<Rightarrow> Some m
      | [] \<Rightarrow> re_search_from p (c # pre) cs)"

definition re_search :: "regex \<Rightarrow> string \<Rightarrow> mstate option" where
  "re_search p s = re_search_from p [] s"


text \<open>A literal string, which is also what \<^verbatim>\<open>re.escape\<close> of it matches.\<close>

fun lit :: "string \<Rightarrow> regex" where
  "lit [] = Eps"
| "lit (c # cs) = Seq (Chr (\<lambda>x. x = c)) (lit cs)"

fun seqs :: "regex list \<Rightarrow> regex" where
  "seqs [] = Eps"
| "seqs [r] = r"
| "seqs (r # rs) = Seq r (seqs rs)"

text \<open>An alternation of literals \<^verbatim>\<open>a|b|c\<close>.\<close>

fun alts :: "string list \<Rightarrow> regex" where
  "alts [] = Eps"
| "alts [w] = lit w"
| "alts (w # ws) = Alt (lit w) (alts ws)"


section \<open>The conversation orchestrator\<close>

text \<open>
  A character profile of the character database. Only \<open>name\<close> is read without a default;
  the other fields are read with \<^verbatim>\<open>.get\<close> and may be absent.
\<close>

record character =
  name :: string
  personality :: "string option"
  powers_abilities :: "string option"

type_synonym character_database = "string \<rightharpoonup> character"

record history_entry =
  speaker :: string
  response :: string
  timestamp :: string

text \<open>
  The configuration dictionary of one autonomous conversation. \<open>detect_autonomous_trigger\<close>
  builds it without \<open>started_at\<close>, \<open>last_speaker\<close> and \<open>conversation_history\<close>;
  \<open>start_autonomous_conversation\<close> sets the three before the dictionary enters the
  registry. \<open>current_round\<close> grows in steps of one half, which binary floating point
  represents exactly; it is a real number here. The repetition test compares a count with
  \<^verbatim>\<open>4 * 0.7\<close>, which is 2.8 up to rounding: a natural number is below the one exactly
  when it is below the other.
\<close>

record config =
  conv_type :: string
  topic :: string
  participants :: "string list"
  duration :: string
  max_rounds :: "int option"
  current_round :: real
  started_at :: "string option"
  last_speaker :: "string option"
  conversation_history :: "history_entry list"

type_synonym registry = "string \<rightharpoonup> config"

text \<open>
  What the outside world contributes to one call: the instant read from the clock, the
  index drawn by \<^verbatim>\<open>random.choice\<close>, the outcome of the completion request (\<open>None\<close> when the
  request raises or answers without choices, otherwise the text of the first choice), and
  the way Python prints a round number.
\<close>

record world =
  clock :: string
  draw :: nat
  completion :: "string option"
  show_round :: "real \<Rightarrow> string"





definition start_autonomous_conversation :: "registry \<Rightarrow> config \<Rightarrow> string \<Rightarrow> world \<Rightarrow> registry" where
  "start_autonomous_conversation reg cfg group_id w =
     reg(group_id \<mapsto> cfg\<lparr>started_at := Some (clock w), last_speaker := None,
                             conversation_history := []\<rparr>)"

definition should_end_conversation :: "config \<Rightarrow> bool" where
  "should_end_conversation cfg =
     (if current_round cfg \<ge> of_int (case max_rounds cfg of Some m \<Rightarrow> m | None \<Rightarrow> 6) then True
      else
        let recent_responses = py_last_n 4 (conversation_history cfg) in
        if length recent_responses \<ge> 4 \<and>
           (let response_texts = map (\<lambda>r. py_lower (response r)) recent_responses;
                unique_responses = set response_texts
            in real (card unique_responses) < real (length response_texts) * 0.7)
        then True
        else False)"

definition end_autonomous_conversation :: "registry \<Rightarrow> string \<Rightarrow> registry" where
  "end_autonomous_conversation reg group_id =
     (if group_id \<in> dom reg then reg(group_id := None) else reg)"

definition is_autonomous_active :: "registry \<Rightarrow> string \<Rightarrow> bool" where
  "is_autonomous_active reg group_id = (group_id \<in> dom reg)"

definition interruption_keywords :: "string list" where
  "interruption_keywords = [''stop'', ''enough'', ''pause'', ''end'', ''quit'', ''finish'']"

text \<open>Returns the flag together with the registry after the call.\<close>

definition handle_user_interruption :: "registry \<Rightarrow> string \<Rightarrow> string \<Rightarrow> bool \<times> registry" where
  "handle_user_interruption reg user_message group_id =
     (if any_in interruption_keywords (py_lower user_message)
      then (True, end_autonomous_conversation reg group_id)
      else (False, reg))"

text \<open>\<^verbatim>\<open>random.choice(xs)\<close> on a non-empty list, with the drawn index supplied.\<close>

definition random_choice :: "nat \<Rightarrow> 'a list \<Rightarrow> 'a" where
  "random_choice r xs = xs ! (r mod length xs)"

definition select_next_speaker :: "config \<Rightarrow> nat \<Rightarrow> py_error + string option" where
  "select_next_speaker cfg r =
     (let ps = participants cfg in
      case last_speaker cfg of
        None \<Rightarrow> Inr (if ps \<noteq> [] then Some (hd ps) else None)
      | Some l \<Rightarrow>
          if l = [] then Inr (if ps \<noteq> [] then Some (hd ps) else None)
          else if conv_type cfg = ''debate'' then
            (case py_index ps l of
               Some current_index \<Rightarrow> Inr (Some (ps ! ((current_index + 1) mod length ps)))
             | None \<Rightarrow> map_sum id Some (py_first ps))
          else if conv_type cfg = ''discussion'' then
            (let available_speakers = filter (\<lambda>p. p \<noteq> l) ps in
             if available_speakers \<noteq> [] then Inr (Some (random_choice r available_speakers))
             else map_sum id Some (py_first ps))
          else map_sum id Some (py_first ps))"

definition fallback_response :: "character \<Rightarrow> config \<Rightarrow> string" where
  "fallback_response ch cfg = ''*'' @ name ch @ '' is thinking about '' @ topic cfg @ ''...*''"

text \<open>
  The prompt assembled inside the \<^verbatim>\<open>try\<close> block only travels to the completion request,
  whose outcome is \<open>completion w\<close>; every exception inside the block ends in the fallback.
\<close>

definition generate_character_autonomous_response :: "character \<Rightarrow> config \<Rightarrow> world \<Rightarrow> string" where
  "generate_character_autonomous_response ch cfg w =
     (case completion w of
        Some content \<Rightarrow>
          (let response_text = py_strip content in
           if prefix ''\"'' response_text \<and> suffix ''\"'' response_text
           then butlast (tl response_text)
           else response_text)
      | None \<Rightarrow> fallback_response ch cfg)"

record reply =
  character_id :: string
  character_name :: string
  reply_text :: string
  autonomous :: bool

text \<open>The checkered-flag sign that opens the closing message, as its UTF-8 bytes.\<close>

definition flag_sign :: string where
  "flag_sign = [CHR 0xF0, CHR 0x9F, CHR 0x8F, CHR 0x81]"

definition generate_autonomous_response ::
  "registry \<Rightarrow> string \<Rightarrow> character_database \<Rightarrow> world \<Rightarrow> py_error + (reply list \<times> registry)" where
  "generate_autonomous_response reg group_id db w =
     (case reg group_id of
        None \<Rightarrow> Inr ([], reg)
      | Some cfg \<Rightarrow>
          if should_end_conversation cfg then
            Inr ([\<lparr>character_id = ''system'', character_name = ''System'',
                   reply_text = flag_sign @ '' '' @ py_title (conv_type cfg) @ '' concluded after ''
                                @ show_round w (current_round cfg) @ '' rounds!'',
                   autonomous = False\<rparr>],
                 end_autonomous_conversation reg group_id)
          else
            (case select_next_speaker cfg (draw w) of
               Inl e \<Rightarrow> Inl e
             | Inr None \<Rightarrow> Inr ([], reg)
             | Inr (Some next_speaker_id) \<Rightarrow>
                 if next_speaker_id = [] then Inr ([], reg)
                 else
                   (case db next_speaker_id of
                      None \<Rightarrow> Inr ([], reg)
                    | Some ch \<Rightarrow>
                        let response_text = generate_character_autonomous_response ch cfg w in
                        if response_text \<noteq> [] then
                          Inr ([\<lparr>character_id = next_speaker_id, character_name = name ch,
                                 reply_text = response_text, autonomous = True\<rparr>],
                               reg(group_id \<mapsto> cfg\<lparr>
                                 last_speaker := Some next_speaker_id,
                                 current_round := current_round cfg + 0.5,
                                 conversation_history := conversation_history cfg @
                                   [\<lparr>speaker = next_speaker_id, response = response_text,
                                     timestamp = clock w\<rparr>]\<rparr>))
                        else Inr ([], reg))))"


section \<open>The character selector\<close>

definition group_message_indicators :: "string list" where
  "group_message_indicators =
     [''everyone'', ''all'', ''guys'', ''team'', ''group'', ''both'', ''all of you'',
      ''what do you all'', ''what does everyone'', ''tell me about yourselves'',
      ''introduce yourselves'', ''how are you all'', ''what are your thoughts'']"

definition greeting_patterns :: "regex list" where
  "greeting_patterns =
     [seqs [Bol, Group 1 (Alt (lit ''hi'') (Alt (lit ''hello'') (Alt (lit ''hey'')
                   (Seq (lit ''greeting'') (Opt (lit ''s'')))))),
            Opt (Seq (Many1 is_space) (alts [''everyone'', ''all'', ''guys'', ''team''])),
            Opt (Chr (\<lambda>c. c \<in> set ''!.'')), Eol],
      seqs [Bol, lit ''good'', Many1 is_space,
            Group 1 (alts [''morning'', ''afternoon'', ''evening'', ''day'']),
            Opt (Seq (Many1 is_space) (alts [''everyone'', ''all''])),
            Opt (Chr (\<lambda>c. c \<in> set ''!.'')), Eol],
      seqs [Bol, lit ''what'', Opt (lit [CHR 0x27]), lit ''s'', Many1 is_space, lit ''up'',
            Opt (Seq (Many1 is_space) (alts [''everyone'', ''all'', ''guys''])),
            Opt (Chr (\<lambda>c. c \<in> set ''!.'')), Eol]]"

definition group_question_patterns :: "regex list" where
  "group_question_patterns =
     [seqs [lit ''what do you '', Opt (Group 1 (lit ''all '')), lit ''think''],
      seqs [lit ''what are your '', Group 1 (alts [''thoughts'', ''opinions''])],
      seqs [lit ''how do you '', Opt (Group 1 (lit ''all '')), lit ''feel''],
      lit ''tell me about yourselves'',
      lit ''introduce yourselves'',
      seqs [lit ''what can you '', Opt (Group 1 (lit ''all '')), lit ''do'']]"

text \<open>The three patterns built around the lower-cased and escaped character name.\<close>

definition greeted_pattern :: "string \<Rightarrow> regex" where
  "greeted_pattern char_name =
     seqs [WordB, Group 1 (alts [''hey'', ''hi'', ''hello'']), Many1 is_space, lit char_name, WordB]"

definition addressed_pattern :: "string \<Rightarrow> regex" where
  "addressed_pattern char_name =
     seqs [WordB, lit char_name, Opt (lit '',''), Many1 is_space,
           Group 1 (alts [''what'', ''how'', ''why'', ''where'', ''when''])]"

definition asked_pattern :: "string \<Rightarrow> regex" where
  "asked_pattern char_name =
     seqs [lit char_name, Many1 is_space,
           Group 1 (Alt (lit ''what'') (Alt (lit ''how'')
             (Alt (seqs [lit ''do'', Many1 is_space, lit ''you''])
             (Alt (seqs [lit ''are'', Many1 is_space, lit ''you''])
                  (seqs [lit ''can'', Many1 is_space, lit ''you''])))))]"

text \<open>The body of the loop of \<open>detect_character_mentions\<close> for one candidate.\<close>

definition is_mentioned :: "string \<Rightarrow> character_database \<Rightarrow> string \<Rightarrow> bool" where
  "is_mentioned message_lower db char_id =
     (case db char_id of
        None \<Rightarrow> False
      | Some ch \<Rightarrow>
          let char_name = py_lower (name ch) in
          if py_in char_name message_lower then True
          else if py_in (''@'' @ char_name) message_lower then True
          else if re_search (greeted_pattern char_name) message_lower \<noteq> None then True
          else if re_search (addressed_pattern char_name) message_lower \<noteq> None then True
          else if re_search (asked_pattern char_name) message_lower \<noteq> None then True
          else False)"

definition detect_character_mentions :: "string \<Rightarrow> string list \<Rightarrow> character_database \<Rightarrow> string list" where
  "detect_character_mentions user_message character_ids db =
     filter (is_mentioned (py_lower user_message) db) character_ids"

definition is_group_directed_message :: "string \<Rightarrow> bool" where
  "is_group_directed_message message_lower =
     (if any_in group_message_indicators message_lower then True
      else list_ex (\<lambda>pattern. re_search pattern message_lower \<noteq> None) group_question_patterns)"

definition is_greeting_message :: "string \<Rightarrow> bool" where
  "is_greeting_message message_lower =
     list_ex (\<lambda>pattern. re_match pattern message_lower \<noteq> None) greeting_patterns"

text \<open>
  The opinion of the language model, a JSON object. Its keys are read with \<^verbatim>\<open>.get\<close>;
  \<open>None\<close> is an absent key.
\<close>

record ai_opinion =
  target_type :: "string option"
  target_characters :: "string list option"
  reasoning :: "string option"
  response_count :: "int option"

text \<open>
  \<open>outcome\<close> is what the completion request and \<^verbatim>\<open>json.loads\<close> produce: \<open>None\<close> when the
  request raises, answers without choices, or the answer is not JSON.
\<close>

definition get_ai_intent_analysis ::
  "string \<Rightarrow> string list \<Rightarrow> character_database \<Rightarrow> ai_opinion option \<Rightarrow> ai_opinion" where
  "get_ai_intent_analysis user_message character_ids db outcome =
     (let char_names = concat (map (\<lambda>char_id. case db char_id of Some ch \<Rightarrow> [name ch] | None \<Rightarrow> [])
                                   character_ids) in
      case outcome of
        Some parsed \<Rightarrow> parsed
      | None \<Rightarrow> \<lparr>target_type = Some ''general'', target_characters = Some (take 2 char_names),
                 reasoning = Some ''Default response selection'', response_count = Some 1\<rparr>)"

definition determine_message_type :: "string \<Rightarrow> string" where
  "determine_message_type message_lower =
     (if list_ex (\<lambda>pattern. re_match pattern message_lower \<noteq> None) greeting_patterns
        then ''greeting''
      else if any_in [''?'', ''what'', ''how'', ''why'', ''where'', ''when'', ''who''] message_lower
        then ''question''
      else if any_in [''tell'', ''explain'', ''describe'', ''show''] message_lower
        then ''request''
      else if any_in [''debate'', ''argue'', ''discuss'', ''fight''] message_lower
        then ''debate_trigger''
      else ''statement'')"

definition calculate_confidence :: "string list \<Rightarrow> bool \<Rightarrow> bool \<Rightarrow> real" where
  "calculate_confidence mentioned_characters is_group_message is_greeting =
     min (0.5 + (if mentioned_characters \<noteq> [] then 0.4 else 0)
              + (if is_group_message then 0.3 else 0)
              + (if is_greeting then 0.2 else 0)) 1.0"

record intent =
  mentioned_characters :: "string list"
  is_group_message :: bool
  is_greeting :: bool
  ai_analysis :: ai_opinion
  message_type :: string
  confidence :: real

definition analyze_message_intent ::
  "string \<Rightarrow> string list \<Rightarrow> character_database \<Rightarrow> ai_opinion option \<Rightarrow> intent" where
  "analyze_message_intent user_message character_ids db outcome =
     (let message_lower = py_strip (py_lower user_message);
          mentioned = detect_character_mentions user_message character_ids db;
          is_group = is_group_directed_message message_lower;
          greeting = is_greeting_message message_lower;
          ai = get_ai_intent_analysis user_message character_ids db outcome
      in \<lparr>mentioned_characters = mentioned, is_group_message = is_group, is_greeting = greeting,
          ai_analysis = ai, message_type = determine_message_type message_lower,
          confidence = calculate_confidence mentioned is_group greeting\<rparr>)"

text \<open>The inner loop of priority 4: the first candidate whose name is the target's.\<close>

definition ai_target :: "string list \<Rightarrow> character_database \<Rightarrow> string \<Rightarrow> string list" where
  "ai_target character_ids db target_name =
     (case find (\<lambda>char_id. case db char_id of
                              Some ch \<Rightarrow> py_lower (name ch) = py_lower target_name
                            | None \<Rightarrow> False) character_ids of
        Some char_id \<Rightarrow> [char_id]
      | None \<Rightarrow> [])"

definition by_message_type :: "string \<Rightarrow> string list \<Rightarrow> string list" where
  "by_message_type mtype character_ids =
     (if mtype = ''debate_trigger'' then take 2 character_ids
      else if mtype = ''question'' then take 2 character_ids
      else if mtype = ''request'' then take 1 character_ids
      else if character_ids \<noteq> [] then take 1 character_ids else [])"

definition select_responding_characters ::
  "intent \<Rightarrow> string list \<Rightarrow> character_database \<Rightarrow> string list" where
  "select_responding_characters ia character_ids db =
     (if mentioned_characters ia \<noteq> [] then mentioned_characters ia
      else if is_greeting ia then character_ids
      else if is_group_message ia then character_ids
      else
        (case target_characters (ai_analysis ia) of
           None \<Rightarrow> by_message_type (message_type ia) character_ids
         | Some targets \<Rightarrow>
             if targets = [] then by_message_type (message_type ia) character_ids
             else
               let ai_targets = concat (map (ai_target character_ids db) targets) in
               if ai_targets \<noteq> [] then
                 py_take (case response_count (ai_analysis ia) of Some k \<Rightarrow> k | None \<Rightarrow> 2) ai_targets
               else by_message_type (message_type ia) character_ids))"

text \<open>
  The responder selection of a message: the intent analysis followed by the selection,
  as the two methods are meant to be chained.
\<close>

definition select_responders ::
  "string \<Rightarrow> string list \<Rightarrow> character_database \<Rightarrow> ai_opinion option \<Rightarrow> string list" where
  "select_responders user_message character_ids db outcome =
     select_responding_characters
       (analyze_message_intent user_message character_ids db outcome) character_ids db"


section \<open>Relevance scoring of the group chat manager\<close>

text \<open>A message of the chat log; both keys are read with \<^verbatim>\<open>.get\<close>.\<close>

record chat_message =
  role :: "string option"
  msg_character_name :: "string option"

text \<open>
  The first five words of an optional profile text, lower-cased. The score is computed
  with exact decimals; the floating-point sums of the source differ from them by rounding
  only, and the two caps cut at the same counts.
\<close>

definition leading_words :: "string option \<Rightarrow> string list" where
  "leading_words field =
     (case field of None \<Rightarrow> [] | Some t \<Rightarrow> if t = [] then [] else take 5 (py_split (py_lower t)))"

definition calculate_enhanced_relevance :: "string \<Rightarrow> character \<Rightarrow> chat_message list \<Rightarrow> real" where
  "calculate_enhanced_relevance user_message ch recent_messages =
     (let base_score = 0.6;
          char_name_lower = py_lower (name ch);
          base_score = (if py_in char_name_lower (py_lower user_message)
                        then base_score + 0.4 else base_score);
          base_score = (if recent_messages \<noteq> [] \<and>
                           list_ex (\<lambda>msg. role msg = Some ''character'' \<and>
                                           msg_character_name msg = Some (name ch))
                                   (py_last_n 3 recent_messages)
                        then base_score + 0.2 else base_score);
          char_keywords = leading_words (powers_abilities ch) @ leading_words (personality ch);
          keyword_matches = length (filter (\<lambda>keyword. length keyword > 3 \<and>
                                                        py_in keyword (py_lower user_message))
                                           char_keywords);
          base_score = base_score + min (real keyword_matches * 0.1) 0.3
      in min base_score 1.0)"

text \<open>
  The score as the specification words it: a sum of four contributions capped at one, the
  keywords being the first five words of the powers and the first \<open>n\<close> words of the
  personality, each longer than three characters.
\<close>

definition spec_keywords :: "nat \<Rightarrow> character \<Rightarrow> string list" where
  "spec_keywords n ch =
     filter (\<lambda>k. length k > 3)
       (take 5 (py_split (py_lower (case powers_abilities ch of Some t \<Rightarrow> t | None \<Rightarrow> []))) @
        take n (py_split (py_lower (case personality ch of Some t \<Rightarrow> t | None \<Rightarrow> []))))"

definition spec_relevance_score :: "nat \<Rightarrow> string \<Rightarrow> character \<Rightarrow> chat_message list \<Rightarrow> real" where
  "spec_relevance_score n user_message ch recent_messages =
     min 1 (0.6
            + (if sublist (py_lower (name ch)) (py_lower user_message) then 0.4 else 0)
            + (if list_ex (\<lambda>msg. role msg = Some ''character'' \<and>
                                    msg_character_name msg = Some (name ch))
                          (py_last_n 3 recent_messages)
               then 0.2 else 0)
            + min 0.3 (0.1 * real (length (filter (\<lambda>k. sublist k (py_lower user_message))
                                                  (spec_keywords n ch)))))"


section \<open>Example data\<close>

definition naruto :: character where
  "naruto = \<lparr>name = ''Naruto'',
             personality = Some ''Cheerful stubborn loyal ninja who never gives up'',
             powers_abilities = Some ''Shadow clones, rasengan and sage mode''\<rparr>"

definition sasuke :: character where
  "sasuke = \<lparr>name = ''Sasuke'', personality = Some ''Cold proud avenger'',
             powers_abilities = Some ''Sharingan, chidori''\<rparr>"

definition sample_db :: character_database where
  "sample_db = [''naruto'' \<mapsto> naruto, ''sasuke'' \<mapsto> sasuke]"

definition sample_debate :: config where
  "sample_debate = \<lparr>conv_type = ''debate'', topic = ''ramen vs curry'',
      participants = [''naruto'', ''sasuke''], duration = ''until_stop'', max_rounds = Some 8,
      current_round = 0, started_at = Some ''2024-05-01T10:00:00'', last_speaker = None,
      conversation_history = []\<rparr>"

definition sample_discussion :: config where
  "sample_discussion = \<lparr>conv_type = ''discussion'', topic = ''Let us chat'',
      participants = [''naruto'', ''sasuke'', ''sakura''], duration = ''until_stop'',
      max_rounds = Some 6, current_round = 1 / 2, started_at = Some ''2024-05-01T10:00:00'',
      last_speaker = Some ''naruto'',
      conversation_history = [\<lparr>speaker = ''naruto'', response = ''Believe it!'',
                                timestamp = ''2024-05-01T10:00:02''\<rparr>]\<rparr>"

definition said :: "string \<Rightarrow> string \<Rightarrow> history_entry" where
  "said who text = \<lparr>speaker = who, response = text, timestamp = ''2024-05-01T10:00:02''\<rparr>"

definition repetitive_debate :: config where
  "repetitive_debate = sample_debate\<lparr>current_round := 2, last_speaker := Some ''sasuke'',
      conversation_history := [said ''naruto'' ''I agree.'', said ''sasuke'' ''I agree.'',
                               said ''naruto'' ''I AGREE.'', said ''sasuke'' ''Sure.'']\<rparr>"

definition lively_debate :: config where
  "lively_debate = sample_debate\<lparr>current_round := 2, last_speaker := Some ''sasuke'',
      conversation_history := [said ''naruto'' ''Ramen wins.'', said ''sasuke'' ''Curry is richer.'',
                               said ''naruto'' ''Ramen has broth.'', said ''sasuke'' ''Hn.'']\<rparr>"

definition sample_registry :: registry where
  "sample_registry = [''g1'' \<mapsto> sample_debate, ''g2'' \<mapsto> sample_discussion]"

definition failing_world :: world where
  "failing_world = \<lparr>clock = ''2024-05-01T10:00:05'', draw = 0, completion = None,
      show_round = (\<lambda>r. ''0'')\<rparr>"

definition eve :: character where
  "eve = \<lparr>name = ''Eve'', personality = Some ''Curious'', powers_abilities = None\<rparr>"

definition bob :: character where
  "bob = \<lparr>name = ''Bob'', personality = None, powers_abilities = None\<rparr>"

definition eve_db :: character_database where
  "eve_db = [''eve'' \<mapsto> eve, ''bob'' \<mapsto> bob]"

definition zero_count_opinion :: ai_opinion where
  "zero_count_opinion = \<lparr>target_type = Some ''specific'', target_characters = Some [''Naruto''],
      reasoning = Some ''Naruto is the one who was asked'', response_count = Some 0\<rparr>"


section \<open>Facts about the primitives\<close>

lemmas string_eval = py_lower_def lower_char_def upper_char_def upper_letters_def
  lower_letters_def py_strip_def is_space_def py_split_def

lemma py_in_sublist: "py_in needle hay = sublist needle hay"
  by (induction hay) (auto simp: sublist_Cons_right)

lemma py_index_Some:
  "py_index ps l = Some i \<Longrightarrow> i < length ps \<and> ps ! i = l \<and> (\<forall>j<i. ps ! j \<noteq> l)"
proof (induction ps arbitrary: i)
  case Nil
  then show ?case by simp
next
  case (Cons p ps)
  show ?case
  proof (cases "p = l")
    case True
    with Cons.prems show ?thesis by simp
  next
    case False
    with Cons.prems obtain k where k: "py_index ps l = Some k" "i = Suc k" by auto
    from Cons.IH[OF k(1)] False k(2) show ?thesis
      by (auto simp: nth_Cons split: nat.splits)
  qed
qed

lemma py_index_None: "py_index ps l = None \<longleftrightarrow> l \<notin> set ps"
  by (induction ps) auto


section \<open>Turn order\<close>

text \<open>
  Claim C6. In a debate, \<open>select_next_speaker\<close> returns the first participant while no
  speaker has been recorded (the key is \<open>None\<close> or the empty string), and otherwise the
  participant that follows the first occurrence of the last speaker, cyclically. With the
  two participants \<open>[A, B]\<close> the turns go A, B, A, B.
\<close>

theorem debate_next_speaker:
  assumes "conv_type cfg = ''debate''"
  shows "((last_speaker cfg = None \<or> last_speaker cfg = Some []) \<and> participants cfg \<noteq> [] \<longrightarrow>
            select_next_speaker cfg r = Inr (Some (hd (participants cfg))))
       \<and> (\<forall>l. last_speaker cfg = Some l \<and> l \<noteq> [] \<and> l \<in> set (participants cfg) \<longrightarrow>
            (\<exists>i<length (participants cfg). participants cfg ! i = l \<and>
               (\<forall>j<i. participants cfg ! j \<noteq> l) \<and>
               select_next_speaker cfg r =
                 Inr (Some (participants cfg ! ((i + 1) mod length (participants cfg))))))
       \<and> (\<forall>A B. participants cfg = [A, B] \<and> A \<noteq> [] \<and> B \<noteq> [] \<longrightarrow>
            (last_speaker cfg = None \<longrightarrow> select_next_speaker cfg r = Inr (Some A)) \<and>
            (last_speaker cfg = Some A \<longrightarrow> select_next_speaker cfg r = Inr (Some B)) \<and>
            (last_speaker cfg = Some B \<longrightarrow> select_next_speaker cfg r = Inr (Some A)))"
proof (intro conjI allI impI)
  assume "(last_speaker cfg = None \<or> last_speaker cfg = Some []) \<and> participants cfg \<noteq> []"
  then show "select_next_speaker cfg r = Inr (Some (hd (participants cfg)))"
    by (auto simp: select_next_speaker_def)
next
  fix l assume h: "last_speaker cfg = Some l \<and> l \<noteq> [] \<and> l \<in> set (participants cfg)"
  then obtain i where i: "py_index (participants cfg) l = Some i"
    using py_index_None[of "participants cfg" l] by (cases "py_index (participants cfg) l") auto
  from py_index_Some[OF i] h i assms
  show "\<exists>i<length (participants cfg). participants cfg ! i = l \<and>
          (\<forall>j<i. participants cfg ! j \<noteq> l) \<and>
          select_next_speaker cfg r =
            Inr (Some (participants cfg ! ((i + 1) mod length (participants cfg))))"
    by (intro exI[of _ i]) (simp add: select_next_speaker_def Let_def)
next
  fix A B assume "participants cfg = [A, B] \<and> A \<noteq> [] \<and> B \<noteq> []" "last_speaker cfg = None"
  then show "select_next_speaker cfg r = Inr (Some A)"
    by (simp add: select_next_speaker_def)
next
  fix A B assume "participants cfg = [A, B] \<and> A \<noteq> [] \<and> B \<noteq> []" "last_speaker cfg = Some A"
  then show "select_next_speaker cfg r = Inr (Some B)"
    using assms by (simp add: select_next_speaker_def)
next
  fix A B assume "participants cfg = [A, B] \<and> A \<noteq> [] \<and> B \<noteq> []" "last_speaker cfg = Some B"
  then show "select_next_speaker cfg r = Inr (Some A)"
    using assms by (auto simp: select_next_speaker_def)
qed

theorem debate_next_speaker_witness:
  "conv_type sample_debate = ''debate'' \<and>
   participants sample_debate = [''naruto'', ''sasuke''] \<and>
   last_speaker sample_debate = None \<and>
   select_next_speaker sample_debate 0 = Inr (Some ''naruto'') \<and>
   select_next_speaker (sample_debate\<lparr>last_speaker := Some ''naruto''\<rparr>) 0 = Inr (Some ''sasuke'') \<and>
   select_next_speaker (sample_debate\<lparr>last_speaker := Some ''sasuke''\<rparr>) 0 = Inr (Some ''naruto'')"
  using debate_next_speaker [of sample_debate 0]
    debate_next_speaker [of "sample_debate\<lparr>last_speaker := Some ''naruto''\<rparr>" 0]
    debate_next_speaker [of "sample_debate\<lparr>last_speaker := Some ''sasuke''\<rparr>" 0]
  by (simp add: sample_debate_def)

text \<open>
  Claim C7. In a discussion with a recorded last speaker, whatever index the random choice
  draws, the next speaker is a participant other than the last speaker, and every such
  participant can be drawn; when the last speaker is the only participant, the first
  participant, who is the last speaker, is returned.
\<close>

theorem discussion_next_speaker:
  assumes "conv_type cfg = ''discussion''" and "last_speaker cfg = Some l" and "l \<noteq> []"
  shows "((\<exists>p\<in>set (participants cfg). p \<noteq> l) \<longrightarrow>
            (\<forall>r. \<exists>x. select_next_speaker cfg r = Inr (Some x) \<and>
                      x \<in> set (participants cfg) \<and> x \<noteq> l) \<and>
            (\<forall>x\<in>set (participants cfg). x \<noteq> l \<longrightarrow>
                      (\<exists>r. select_next_speaker cfg r = Inr (Some x))))
       \<and> (participants cfg \<noteq> [] \<and> (\<forall>p\<in>set (participants cfg). p = l) \<longrightarrow>
            (\<forall>r. select_next_speaker cfg r = Inr (Some (hd (participants cfg))) \<and>
                 hd (participants cfg) = l))"
proof (intro conjI impI allI ballI)
  fix r assume ex: "\<exists>p\<in>set (participants cfg). p \<noteq> l"
  define av where "av = filter (\<lambda>p. p \<noteq> l) (participants cfg)"
  from ex have ne: "av \<noteq> []" by (auto simp: av_def filter_empty_conv)
  then have "r mod length av < length av" by simp
  then have "av ! (r mod length av) \<in> set av" by (rule nth_mem)
  then have "av ! (r mod length av) \<in> set (participants cfg) \<and> av ! (r mod length av) \<noteq> l"
    by (simp add: av_def)
  moreover have "select_next_speaker cfg r = Inr (Some (av ! (r mod length av)))"
    using assms ne by (simp add: select_next_speaker_def Let_def random_choice_def av_def)
  ultimately show "\<exists>x. select_next_speaker cfg r = Inr (Some x) \<and>
      x \<in> set (participants cfg) \<and> x \<noteq> l"
    by blast
next
  fix x assume "\<exists>p\<in>set (participants cfg). p \<noteq> l"
    and x: "x \<in> set (participants cfg)" "x \<noteq> l"
  define av where "av = filter (\<lambda>p. p \<noteq> l) (participants cfg)"
  from x have "x \<in> set av" by (simp add: av_def)
  then obtain i where i: "i < length av" "av ! i = x" by (auto simp: in_set_conv_nth)
  then have ne: "av \<noteq> []" by auto
  have "select_next_speaker cfg i = Inr (Some (av ! (i mod length av)))"
    using assms ne by (simp add: select_next_speaker_def Let_def random_choice_def av_def)
  with i show "\<exists>r. select_next_speaker cfg r = Inr (Some x)" by (intro exI[of _ i]) simp
next
  fix r assume h: "participants cfg \<noteq> [] \<and> (\<forall>p\<in>set (participants cfg). p = l)"
  then have "filter (\<lambda>p. p \<noteq> l) (participants cfg) = []" by (auto simp: filter_empty_conv)
  moreover from h obtain p ps where "participants cfg = p # ps"
    by (cases "participants cfg") auto
  ultimately have "select_next_speaker cfg r = Inr (Some (hd (participants cfg))) \<and>
      hd (participants cfg) = l"
    using assms h by (auto simp: select_next_speaker_def Let_def py_first_def)
  then show "select_next_speaker cfg r = Inr (Some (hd (participants cfg)))"
    and "hd (participants cfg) = l"
    by simp_all
qed

theorem discussion_next_speaker_witness:
  "conv_type sample_discussion = ''discussion'' \<and>
   last_speaker sample_discussion = Some ''naruto'' \<and>
   ''sasuke'' \<in> set (participants sample_discussion) \<and>
   select_next_speaker sample_discussion 0 = Inr (Some ''sasuke'') \<and>
   select_next_speaker sample_discussion 1 = Inr (Some ''sakura'') \<and>
   participants (sample_discussion\<lparr>participants := [''naruto'']\<rparr>) = [''naruto''] \<and>
   select_next_speaker (sample_discussion\<lparr>participants := [''naruto'']\<rparr>) 5 = Inr (Some ''naruto'')"
  using discussion_next_speaker [of sample_discussion "''naruto''"]
    discussion_next_speaker [of "sample_discussion\<lparr>participants := [''naruto'']\<rparr>" "''naruto''"]
  by (simp add: sample_discussion_def select_next_speaker_def random_choice_def py_first_def)


section \<open>Termination of an autonomous conversation\<close>

text \<open>
  Claim C8. \<open>should_end_conversation\<close> holds exactly when the round counter has reached
  the round limit (6 when the configuration has none), or the history has at least four
  entries and the lower-cased texts of its last four have fewer than 4 * 0.7 distinct
  values. So it holds when these texts have at most two distinct values, and it fails
  when the counter is below the limit and the texts are pairwise distinct.
\<close>

theorem should_end_conversation_iff:
  "(should_end_conversation cfg \<longleftrightarrow>
      (current_round cfg \<ge> of_int (case max_rounds cfg of Some m \<Rightarrow> m | None \<Rightarrow> 6) \<or>
       (length (conversation_history cfg) \<ge> 4 \<and>
        real (card (set (map (\<lambda>e. py_lower (response e))
               (drop (length (conversation_history cfg) - 4) (conversation_history cfg)))))
          < 4 * 0.7)))
   \<and> (length (conversation_history cfg) \<ge> 4 \<and>
        card (set (map (\<lambda>e. py_lower (response e))
               (drop (length (conversation_history cfg) - 4) (conversation_history cfg)))) \<le> 2
        \<longrightarrow> should_end_conversation cfg)
   \<and> (current_round cfg < of_int (case max_rounds cfg of Some m \<Rightarrow> m | None \<Rightarrow> 6) \<and>
        distinct (map (\<lambda>e. py_lower (response e))
               (drop (length (conversation_history cfg) - 4) (conversation_history cfg)))
        \<longrightarrow> \<not> should_end_conversation cfg)"
proof -
  define h where "h = conversation_history cfg"
  define texts where "texts = map (\<lambda>e. py_lower (response e)) (drop (length h - 4) h)"
  define lim where "lim = (case max_rounds cfg of Some m \<Rightarrow> m | None \<Rightarrow> 6)"
  have len: "length texts = min 4 (length h)" by (auto simp: texts_def)
  have iff: "should_end_conversation cfg \<longleftrightarrow>
      (current_round cfg \<ge> of_int lim \<or> (length h \<ge> 4 \<and> real (card (set texts)) < 4 * 0.7))"
  proof (cases "length h \<ge> 4")
    case True
    then have "length (drop (length h - 4) h) = 4" by simp
    then show ?thesis using True
      unfolding should_end_conversation_def py_last_n_def Let_def texts_def h_def lim_def
      by (simp del: set_map)
  next
    case False
    then have "\<not> length (drop (length h - 4) h) \<ge> 4" by simp
    then show ?thesis using False
      unfolding should_end_conversation_def py_last_n_def Let_def texts_def h_def lim_def
      by (simp del: set_map)
  qed
  have two: "length h \<ge> 4 \<and> card (set texts) \<le> 2 \<longrightarrow> should_end_conversation cfg"
    unfolding iff by auto
  have dist: "current_round cfg < of_int lim \<and> distinct texts \<longrightarrow> \<not> should_end_conversation cfg"
  proof (intro impI)
    assume a: "current_round cfg < of_int lim \<and> distinct texts"
    then have "card (set texts) = length texts" by (simp add: distinct_card)
    then have "length h \<ge> 4 \<Longrightarrow> card (set texts) = 4" using len by simp
    with a show "\<not> should_end_conversation cfg" unfolding iff by auto
  qed
  from iff two dist show ?thesis unfolding h_def texts_def lim_def by blast
qed

theorem should_end_conversation_iff_witness:
  "length (conversation_history repetitive_debate) = 4 \<and>
   map (\<lambda>e. py_lower (response e)) (conversation_history repetitive_debate) =
     [''i agree.'', ''i agree.'', ''i agree.'', ''sure.''] \<and>
   should_end_conversation repetitive_debate \<and>
   current_round lively_debate = 2 \<and> max_rounds lively_debate = Some 8 \<and>
   distinct (map (\<lambda>e. py_lower (response e)) (conversation_history lively_debate)) \<and>
   \<not> should_end_conversation lively_debate \<and>
   should_end_conversation (lively_debate\<lparr>current_round := 8\<rparr>)"
proof -
  have t: "map (\<lambda>e. py_lower (response e)) (conversation_history repetitive_debate) =
     [''i agree.'', ''i agree.'', ''i agree.'', ''sure.'']"
    by (simp add: repetitive_debate_def said_def string_eval)
  have d: "distinct (map (\<lambda>e. py_lower (response e)) (conversation_history lively_debate))"
    by (simp add: lively_debate_def said_def string_eval)
  have l: "length (conversation_history repetitive_debate) = 4"
      "current_round lively_debate = 2" "max_rounds lively_debate = Some 8"
    by (simp_all add: repetitive_debate_def lively_debate_def sample_debate_def)
  have l': "length (conversation_history lively_debate) = 4"
      "conversation_history (lively_debate\<lparr>current_round := 8\<rparr>) = conversation_history lively_debate"
      "current_round (lively_debate\<lparr>current_round := 8\<rparr>) = 8"
      "max_rounds (lively_debate\<lparr>current_round := 8\<rparr>) = Some 8"
    by (simp_all add: lively_debate_def sample_debate_def)
  have c: "card (set (map (\<lambda>e. py_lower (response e)) (conversation_history repetitive_debate))) \<le> 2"
    unfolding t by simp
  have r: "should_end_conversation repetitive_debate"
    using should_end_conversation_iff [of repetitive_debate] l(1) c by simp
  have m: "should_end_conversation (lively_debate\<lparr>current_round := 8\<rparr>)"
    using should_end_conversation_iff [of "lively_debate\<lparr>current_round := 8\<rparr>"] l'
    by simp
  have n: "\<not> should_end_conversation lively_debate"
  proof -
    have "current_round lively_debate
            < of_int (case max_rounds lively_debate of Some m \<Rightarrow> m | None \<Rightarrow> 6)"
      by (simp add: l)
    moreover have "distinct (map (\<lambda>e. py_lower (response e))
        (drop (length (conversation_history lively_debate) - 4)
              (conversation_history lively_debate)))"
      using d by (simp add: l')
    ultimately show ?thesis
      using should_end_conversation_iff [of lively_debate] by blast
  qed
  from t d l r m n show ?thesis by blast
qed


section \<open>User interruption\<close>

text \<open>
  Claim C9. When the lower-cased message contains one of the words stop, enough, pause,
  end, quit, finish, \<open>handle_user_interruption\<close> answers \<open>True\<close> and removes the entry of
  the group, so that the group is no longer active; otherwise it answers \<open>False\<close> and
  the registry is the same. The entries of all other groups stay as they were.
\<close>

theorem interruption_effect:
  "((\<exists>k\<in>{''stop'', ''enough'', ''pause'', ''end'', ''quit'', ''finish''}. sublist k (py_lower msg)) \<longrightarrow>
       handle_user_interruption reg msg g = (True, reg(g := None)) \<and>
       \<not> is_autonomous_active (snd (handle_user_interruption reg msg g)) g)
   \<and> (\<not> (\<exists>k\<in>{''stop'', ''enough'', ''pause'', ''end'', ''quit'', ''finish''}. sublist k (py_lower msg)) \<longrightarrow>
       handle_user_interruption reg msg g = (False, reg))
   \<and> (\<forall>g'. g' \<noteq> g \<longrightarrow> snd (handle_user_interruption reg msg g) g' = reg g')"
proof -
  have kw: "any_in interruption_keywords (py_lower msg) \<longleftrightarrow>
        (\<exists>k\<in>{''stop'', ''enough'', ''pause'', ''end'', ''quit'', ''finish''}. sublist k (py_lower msg))"
    by (simp add: any_in_def interruption_keywords_def py_in_sublist)
  have e: "end_autonomous_conversation reg g = reg(g := None)"
    by (auto simp: end_autonomous_conversation_def fun_eq_iff domIff)
  show ?thesis
    unfolding handle_user_interruption_def kw e
    by (simp add: is_autonomous_active_def)
qed

theorem interruption_effect_witness:
  "sublist ''stop'' (py_lower ''Please STOP'') \<and>
   is_autonomous_active sample_registry ''g1'' \<and>
   handle_user_interruption sample_registry ''Please STOP'' ''g1''
     = (True, sample_registry(''g1'' := None)) \<and>
   \<not> is_autonomous_active (snd (handle_user_interruption sample_registry ''Please STOP'' ''g1'')) ''g1'' \<and>
   snd (handle_user_interruption sample_registry ''Please STOP'' ''g1'') ''g2'' = Some sample_discussion \<and>
   handle_user_interruption sample_registry ''go on'' ''g1'' = (False, sample_registry)"
proof -
  have s: "sublist ''stop'' (py_lower ''Please STOP'')"
    unfolding py_in_sublist [symmetric] by (simp add: string_eval)
  have n: "\<not> (\<exists>k\<in>{''stop'', ''enough'', ''pause'', ''end'', ''quit'', ''finish''}.
                sublist k (py_lower ''go on''))"
    unfolding py_in_sublist [symmetric] by (simp add: string_eval)
  have a: "is_autonomous_active sample_registry ''g1''"
    by (simp add: is_autonomous_active_def sample_registry_def)
  have g: "sample_registry ''g2'' = Some sample_discussion"
    by (simp add: sample_registry_def)
  show ?thesis
    using interruption_effect [of "''Please STOP''" sample_registry "''g1''"]
      interruption_effect [of "''go on''" sample_registry "''g1''"] s n a g
    by auto
qed


section \<open>A turn whose generation fails\<close>

text \<open>
  Claim C1 says that a failed generation returns the placeholder and leaves the round
  counter, the last speaker and the history as they were. The placeholder is returned,
  but it is recorded like any other reply: here the first turn of a debate fails, and the
  counter goes from 0 to one half, the speaker is recorded and the history gets an entry.
\<close>

theorem failed_generation_mutates_state:
  "completion failing_world = None \<and>
   sample_registry ''g1'' = Some sample_debate \<and>
   \<not> should_end_conversation sample_debate \<and>
   select_next_speaker sample_debate (draw failing_world) = Inr (Some ''naruto'') \<and>
   sample_db ''naruto'' = Some naruto \<and>
   generate_autonomous_response sample_registry ''g1'' sample_db failing_world =
     Inr ([\<lparr>character_id = ''naruto'', character_name = ''Naruto'',
            reply_text = ''*Naruto is thinking about ramen vs curry...*'', autonomous = True\<rparr>],
          sample_registry(''g1'' \<mapsto> sample_debate\<lparr>
            last_speaker := Some ''naruto'',
            current_round := 1 / 2,
            conversation_history :=
              [\<lparr>speaker = ''naruto'', response = ''*Naruto is thinking about ramen vs curry...*'',
                timestamp = ''2024-05-01T10:00:05''\<rparr>]\<rparr>)) \<and>
   current_round sample_debate = 0 \<and> last_speaker sample_debate = None \<and>
   conversation_history sample_debate = []"
  by (simp add: generate_autonomous_response_def generate_character_autonomous_response_def
      fallback_response_def Let_def should_end_conversation_def py_last_n_def
      select_next_speaker_def
      sample_registry_def sample_debate_def sample_db_def naruto_def failing_world_def)

text \<open>
  Claim C1, amended. When the conversation is not over, the selected speaker is in the
  character database and the generation fails, \<open>generate_autonomous_response\<close> returns
  one reply of that speaker whose text is the placeholder, and records it as a turn: the
  speaker becomes the last speaker, the counter grows by one half and the placeholder is
  appended to the history. Nothing else changes.
\<close>

theorem failed_generation_advances_turn:
  assumes "reg group_id = Some cfg"
    and "\<not> should_end_conversation cfg"
    and "select_next_speaker cfg (draw w) = Inr (Some s)"
    and "s \<noteq> []"
    and "db s = Some ch"
    and "completion w = None"
  shows "generate_autonomous_response reg group_id db w =
           Inr ([\<lparr>character_id = s, character_name = name ch,
                  reply_text = ''*'' @ name ch @ '' is thinking about '' @ topic cfg @ ''...*'',
                  autonomous = True\<rparr>],
                reg(group_id \<mapsto> cfg\<lparr>
                  last_speaker := Some s,
                  current_round := current_round cfg + 1 / 2,
                  conversation_history := conversation_history cfg @
                    [\<lparr>speaker = s,
                      response = ''*'' @ name ch @ '' is thinking about '' @ topic cfg @ ''...*'',
                      timestamp = clock w\<rparr>]\<rparr>))"
  using assms
  by (simp add: generate_autonomous_response_def generate_character_autonomous_response_def
      fallback_response_def Let_def)

theorem failed_generation_advances_turn_witness:
  "generate_autonomous_response sample_registry ''g1'' sample_db failing_world =
     Inr ([\<lparr>character_id = ''naruto'', character_name = ''Naruto'',
            reply_text = ''*Naruto is thinking about ramen vs curry...*'', autonomous = True\<rparr>],
          sample_registry(''g1'' \<mapsto> sample_debate\<lparr>
            last_speaker := Some ''naruto'',
            current_round := 1 / 2,
            conversation_history :=
              [\<lparr>speaker = ''naruto'', response = ''*Naruto is thinking about ramen vs curry...*'',
                timestamp = ''2024-05-01T10:00:05''\<rparr>]\<rparr>))"
proof -
  have 1: "sample_registry ''g1'' = Some sample_debate" by (simp add: sample_registry_def)
  have 2: "\<not> should_end_conversation sample_debate"
    by (simp add: should_end_conversation_def sample_debate_def py_last_n_def)
  have 3: "select_next_speaker sample_debate (draw failing_world) = Inr (Some ''naruto'')"
    by (simp add: select_next_speaker_def sample_debate_def)
  have 4: "''naruto'' \<noteq> []" by simp
  have 5: "sample_db ''naruto'' = Some naruto" by (simp add: sample_db_def)
  have 6: "completion failing_world = None" by (simp add: failing_world_def)
  show ?thesis
    using failed_generation_advances_turn
      [of sample_registry "''g1''" sample_debate failing_world "''naruto''" sample_db naruto]
      1 2 3 4 5 6
    by (simp add: naruto_def sample_debate_def failing_world_def)
qed


section \<open>Facts about the matcher\<close>

lemma rmatch_subject: "m \<in> set (rmatch r st) \<Longrightarrow> subject m = subject st"
proof (induction r arbitrary: st m)
  case Eps
  then show ?case by simp
next
  case (Chr P)
  then show ?case by (cases st) (auto simp: subject_def split: list.splits if_splits)
next
  case (Many1 P)
  then show ?case by (cases st) (auto simp: subject_def)
next
  case (Seq a b)
  then obtain st1 where "st1 \<in> set (rmatch a st)" "m \<in> set (rmatch b st1)" by auto
  with Seq.IH show ?case by metis
next
  case (Alt a b)
  from Alt.prems have "m \<in> set (rmatch a st) \<or> m \<in> set (rmatch b st)" by simp
  with Alt.IH show ?case by blast
next
  case (Opt a)
  from Opt.prems have "m \<in> set (rmatch a st) \<or> m = st" by auto
  with Opt.IH show ?case by blast
next
  case (Group n a)
  obtain pre rest caps where st: "st = (pre, rest, caps)" by (cases st)
  with Group.prems obtain pre' rest' caps' where
    m: "(pre', rest', caps') \<in> set (rmatch a st)" "fst m = pre'" "fst (snd m) = rest'"
    by auto
  from Group.IH[OF m(1)] m(2,3) show ?case by (simp add: subject_def)
next
  case Bol
  then show ?case by (cases st) (auto split: if_splits)
next
  case Eol
  then show ?case by (cases st) (auto split: if_splits)
next
  case WordB
  then show ?case by (cases st) (auto split: if_splits)
qed

lemma rmatch_lit:
  "rmatch (lit w) (pre, rest, caps) =
     (if prefix w rest then [(rev w @ pre, drop (length w) rest, caps)] else [])"
proof (induction w arbitrary: pre rest)
  case Nil
  then show ?case by simp
next
  case (Cons c w)
  show ?case by (cases rest) (simp_all add: Cons.IH)
qed

lemma needs_lit: "rmatch (lit w) st \<noteq> [] \<Longrightarrow> sublist w (subject st)"
  by (cases st) (auto simp: rmatch_lit subject_def prefix_def sublist_def split: if_splits)

lemma needs_Seq_left:
  assumes "\<And>st. rmatch a st \<noteq> [] \<Longrightarrow> sublist w (subject st)"
    and "rmatch (Seq a b) st \<noteq> []"
  shows "sublist w (subject st)"
  using assms by (cases "rmatch a st") auto

lemma needs_Seq_right:
  assumes "\<And>st. rmatch b st \<noteq> [] \<Longrightarrow> sublist w (subject st)"
    and "rmatch (Seq a b) st \<noteq> []"
  shows "sublist w (subject st)"
proof -
  from assms(2) obtain st1 where st1: "st1 \<in> set (rmatch a st)" "rmatch b st1 \<noteq> []"
    by auto
  from assms(1)[OF st1(2)] rmatch_subject[OF st1(1)] show ?thesis by simp
qed

lemma re_search_from_Some:
  "re_search_from p pre rest = Some m \<Longrightarrow>
     \<exists>st. subject st = rev pre @ rest \<and> snd (snd st) = [] \<and> rmatch p st \<noteq> [] \<and> m = hd (rmatch p st)"
proof (induction rest arbitrary: pre)
  case Nil
  then show ?case
    by (intro exI[of _ "(pre, [], [])"]) (auto simp: subject_def split: list.splits)
next
  case (Cons c cs)
  show ?case
  proof (cases "rmatch p (pre, c # cs, [])")
    case Nil
    with Cons.prems have "re_search_from p (c # pre) cs = Some m" by simp
    from Cons.IH[OF this] show ?thesis by simp
  next
    case (Cons m' ms)
    with Cons.prems show ?thesis
      by (intro exI[of _ "(pre, c # cs, [])"]) (auto simp: subject_def)
  qed
qed

lemma search_needs:
  assumes "\<And>st. rmatch p st \<noteq> [] \<Longrightarrow> sublist w (subject st)"
    and "re_search p s \<noteq> None"
  shows "sublist w s"
proof -
  from assms(2) obtain m where "re_search_from p [] s = Some m" by (auto simp: re_search_def)
  from re_search_from_Some[OF this] obtain st where "subject st = s" "rmatch p st \<noteq> []" by auto
  with assms(1)[of st] show ?thesis by simp
qed

lemma greeted_needs_name: "re_search (greeted_pattern n) s \<noteq> None \<Longrightarrow> sublist n s"
  unfolding greeted_pattern_def seqs.simps
  apply (erule search_needs[rotated])
  apply (erule needs_Seq_right[rotated])
  apply (erule needs_Seq_right[rotated])
  apply (erule needs_Seq_right[rotated])
  apply (erule needs_Seq_left[rotated])
  apply (erule needs_lit)
  done

lemma addressed_needs_name: "re_search (addressed_pattern n) s \<noteq> None \<Longrightarrow> sublist n s"
  unfolding addressed_pattern_def seqs.simps
  apply (erule search_needs[rotated])
  apply (erule needs_Seq_right[rotated])
  apply (erule needs_Seq_left[rotated])
  apply (erule needs_lit)
  done

lemma asked_needs_name: "re_search (asked_pattern n) s \<noteq> None \<Longrightarrow> sublist n s"
  unfolding asked_pattern_def seqs.simps
  apply (erule search_needs[rotated])
  apply (erule needs_Seq_left[rotated])
  apply (erule needs_lit)
  done

lemma is_mentioned_iff:
  "is_mentioned message_lower db char_id \<longleftrightarrow>
     (\<exists>ch. db char_id = Some ch \<and> sublist (py_lower (name ch)) message_lower)"
proof (cases "db char_id")
  case None
  then show ?thesis by (simp add: is_mentioned_def)
next
  case (Some ch)
  have "sublist (py_lower (name ch)) message_lower"
    if "sublist (''@'' @ py_lower (name ch)) message_lower"
    using that by (auto simp: sublist_def) (metis append.assoc append_Cons append_Nil)
  with Some show ?thesis
    using greeted_needs_name addressed_needs_name asked_needs_name
    by (auto simp: is_mentioned_def Let_def py_in_sublist)
qed


section \<open>Responder selection\<close>

lemmas regex_eval = re_match_def re_search_def newline_def dot_def is_word_def word_before_def

lemma detect_character_mentions_eq:
  "detect_character_mentions msg ids db =
     filter (\<lambda>c. case db c of Some ch \<Rightarrow> sublist (py_lower (name ch)) (py_lower msg) | None \<Rightarrow> False) ids"
  unfolding detect_character_mentions_def
  by (rule filter_cong) (auto simp: is_mentioned_iff split: option.splits)

text \<open>
  Claim C5. When the lower-cased message contains the lower-cased display name of a
  candidate that is in the character database, \<open>select_responders\<close> returns exactly the
  candidates detected as mentioned, in candidate order, that candidate among them, whatever
  else the message says and whatever the language model answers. The detected candidates
  are those whose lower-cased display name occurs in the lower-cased message.
\<close>

theorem mention_priority:
  assumes "cid \<in> set ids" and "db cid = Some ch"
    and "sublist (py_lower (name ch)) (py_lower msg)"
  shows "select_responders msg ids db outcome = detect_character_mentions msg ids db
       \<and> detect_character_mentions msg ids db =
           filter (\<lambda>c. case db c of Some ch' \<Rightarrow> sublist (py_lower (name ch')) (py_lower msg)
                                   | None \<Rightarrow> False) ids
       \<and> cid \<in> set (select_responders msg ids db outcome)"
proof -
  have m: "cid \<in> set (detect_character_mentions msg ids db)"
    using assms by (simp add: detect_character_mentions_eq)
  then have ne: "detect_character_mentions msg ids db \<noteq> []" by auto
  then have s: "select_responders msg ids db outcome = detect_character_mentions msg ids db"
    by (simp add: select_responders_def select_responding_characters_def
        analyze_message_intent_def Let_def)
  from m s detect_character_mentions_eq show ?thesis by simp
qed

theorem mention_priority_witness:
  "''naruto'' \<in> set [''naruto'', ''sasuke''] \<and> sample_db ''naruto'' = Some naruto \<and>
   sublist (py_lower (name naruto)) (py_lower ''Hello everyone, and NARUTO what do you all think?'') \<and>
   select_responders ''Hello everyone, and NARUTO what do you all think?'' [''naruto'', ''sasuke'']
      sample_db None = [''naruto'']"
proof -
  have 1: "''naruto'' \<in> set [''naruto'', ''sasuke'']" by simp
  have 2: "sample_db ''naruto'' = Some naruto" by (simp add: sample_db_def)
  have 3: "sublist (py_lower (name naruto)) (py_lower ''Hello everyone, and NARUTO what do you all think?'')"
    unfolding py_in_sublist [symmetric] by (simp add: naruto_def string_eval)
  have 4: "filter (\<lambda>c. case sample_db c of
               Some ch' \<Rightarrow> sublist (py_lower (name ch')) (py_lower ''Hello everyone, and NARUTO what do you all think?'')
             | None \<Rightarrow> False) [''naruto'', ''sasuke''] = [''naruto'']"
    unfolding py_in_sublist [symmetric] by (simp add: sample_db_def naruto_def sasuke_def string_eval)
  show ?thesis
    using mention_priority [where cid = "''naruto''" and ids = "[''naruto'', ''sasuke'']"
        and db = sample_db and ch = naruto
        and msg = "''Hello everyone, and NARUTO what do you all think?''" and outcome = None]
      1 2 3 4
    by simp
qed

lemma greet_hello_everyone: "is_greeting_message (py_strip (py_lower ''hello everyone''))"
  by (simp add: is_greeting_message_def greeting_patterns_def string_eval regex_eval)

text \<open>
  Claim C4 says that a greeting is answered by all candidates. Mentions are looked for
  first and a display name is searched as a plain substring: the greeting
  \<^verbatim>\<open>hello everyone\<close> contains the name Eve, so only Eve answers.
\<close>

theorem greeting_with_named_candidate:
  "is_greeting_message (py_strip (py_lower ''hello everyone'')) \<and>
   select_responders ''hello everyone'' [''eve'', ''bob''] eve_db None = [''eve'']"
proof -
  have "detect_character_mentions ''hello everyone'' [''eve'', ''bob''] eve_db = [''eve'']"
    unfolding detect_character_mentions_eq py_in_sublist [symmetric]
    by (simp add: eve_db_def eve_def bob_def string_eval)
  then have "select_responders ''hello everyone'' [''eve'', ''bob''] eve_db None = [''eve'']"
    by (simp add: select_responders_def select_responding_characters_def
        analyze_message_intent_def Let_def)
  with greet_hello_everyone show ?thesis by simp
qed

text \<open>
  Claim C4, amended. When the trimmed lower-cased message is a greeting and no candidate
  is detected as mentioned, \<open>select_responders\<close> returns all candidates in candidate
  order.
\<close>

theorem greeting_all_respond:
  assumes "is_greeting_message (py_strip (py_lower msg))"
    and "detect_character_mentions msg ids db = []"
  shows "select_responders msg ids db outcome = ids"
  using assms
  by (simp add: select_responders_def select_responding_characters_def
      analyze_message_intent_def Let_def)

theorem greeting_all_respond_witness:
  "is_greeting_message (py_strip (py_lower ''Hello everyone'')) \<and>
   is_greeting_message (py_strip (py_lower ''hi'')) \<and>
   is_greeting_message (py_strip (py_lower ''what's up'')) \<and>
   detect_character_mentions ''Hello everyone'' [''naruto'', ''sasuke''] sample_db = [] \<and>
   select_responders ''Hello everyone'' [''naruto'', ''sasuke''] sample_db None = [''naruto'', ''sasuke''] \<and>
   select_responders ''hi'' [''naruto'', ''sasuke''] sample_db None = [''naruto'', ''sasuke''] \<and>
   select_responders ''what's up'' [''naruto'', ''sasuke''] sample_db None = [''naruto'', ''sasuke'']"
proof -
  have g: "is_greeting_message (py_strip (py_lower ''Hello everyone''))"
      "is_greeting_message (py_strip (py_lower ''hi''))"
      "is_greeting_message (py_strip (py_lower ''what's up''))"
    by (simp_all add: is_greeting_message_def greeting_patterns_def string_eval regex_eval)
  have d: "detect_character_mentions ''Hello everyone'' [''naruto'', ''sasuke''] sample_db = []"
      "detect_character_mentions ''hi'' [''naruto'', ''sasuke''] sample_db = []"
      "detect_character_mentions ''what's up'' [''naruto'', ''sasuke''] sample_db = []"
    unfolding detect_character_mentions_eq py_in_sublist [symmetric]
    by (simp_all add: sample_db_def naruto_def sasuke_def string_eval)
  show ?thesis
    using greeting_all_respond [OF g(1) d(1), of None] greeting_all_respond [OF g(2) d(2), of None]
      greeting_all_respond [OF g(3) d(3), of None] g d
    by simp
qed

text \<open>
  Claim C2 says that \<open>select_responders\<close> returns a non-empty list whenever there are
  candidates, for every opinion of the language model. The opinion's \<open>response_count\<close>
  is used as a slice bound without a check: with the count 0 and a target that matches a
  candidate, nobody is selected although there are two candidates.
\<close>

theorem zero_count_selects_nobody:
  "select_responders ''ok'' [''naruto'', ''sasuke''] sample_db (Some zero_count_opinion) = []"
proof -
  have d: "detect_character_mentions ''ok'' [''naruto'', ''sasuke''] sample_db = []"
    unfolding detect_character_mentions_eq py_in_sublist [symmetric]
    by (simp add: sample_db_def naruto_def sasuke_def string_eval)
  have g: "\<not> is_greeting_message (py_strip (py_lower ''ok''))"
    by (simp add: is_greeting_message_def greeting_patterns_def string_eval regex_eval)
  have q: "\<not> is_group_directed_message (py_strip (py_lower ''ok''))"
    by (simp add: is_group_directed_message_def group_message_indicators_def any_in_def
        group_question_patterns_def string_eval regex_eval)
  have t: "ai_target [''naruto'', ''sasuke''] sample_db ''Naruto'' = [''naruto'']"
    by (simp add: ai_target_def sample_db_def naruto_def sasuke_def string_eval)
  show ?thesis
    by (simp add: select_responders_def select_responding_characters_def
        analyze_message_intent_def get_ai_intent_analysis_def Let_def d g q t
        zero_count_opinion_def py_take_def)
qed

lemma by_message_type_nonempty: "ids \<noteq> [] \<Longrightarrow> by_message_type mt ids \<noteq> []"
  by (cases ids) (simp_all add: by_message_type_def)

lemma py_take_nonempty: "1 \<le> k \<Longrightarrow> xs \<noteq> [] \<Longrightarrow> py_take k xs \<noteq> []"
  by (cases xs) (auto simp: py_take_def take_Cons split: nat.splits)

lemma responders_nonempty_for_positive_count:
  assumes "ids \<noteq> []"
    and "case outcome of None \<Rightarrow> True
         | Some parsed \<Rightarrow> (case response_count parsed of None \<Rightarrow> True | Some k \<Rightarrow> 1 \<le> k)"
  shows "select_responders msg ids db outcome \<noteq> []"
proof -
  define ai where "ai = get_ai_intent_analysis msg ids db outcome"
  have k: "1 \<le> (case response_count ai of Some k \<Rightarrow> k | None \<Rightarrow> 2)"
    using assms(2) unfolding ai_def get_ai_intent_analysis_def Let_def
    by (cases outcome) (auto split: option.splits)
  show ?thesis
    unfolding select_responders_def select_responding_characters_def analyze_message_intent_def
      Let_def ai_def[symmetric]
    using assms(1) k by (auto simp: by_message_type_nonempty py_take_nonempty split: option.splits)
qed


section \<open>Relevance score\<close>

text \<open>
  Claim C3 takes the first three words of the personality. The fourth word counts too:
  for Naruto, whose personality starts with "Cheerful stubborn loyal ninja", the message
  "Any ninja here" scores 0.7 and not the 0.6 of the formula with three words.
\<close>

theorem personality_keywords_counterexample:
  "calculate_enhanced_relevance ''Any ninja here'' naruto [] = 7 / 10 \<and>
   spec_relevance_score 3 ''Any ninja here'' naruto [] = 6 / 10"
proof -
  have "calculate_enhanced_relevance ''Any ninja here'' naruto [] = 7 / 10"
    by (simp add: calculate_enhanced_relevance_def leading_words_def naruto_def string_eval
        py_last_n_def Let_def)
  moreover have "spec_relevance_score 3 ''Any ninja here'' naruto [] = 6 / 10"
    unfolding spec_relevance_score_def spec_keywords_def py_in_sublist [symmetric]
    by (simp add: naruto_def string_eval py_last_n_def)
  ultimately show ?thesis by simp
qed

text \<open>
  Claim C3, amended. The relevance score is 0.6, plus 0.4 when the lower-cased display
  name occurs in the lower-cased message, plus 0.2 when one of the last three messages is
  a character message of that display name, plus 0.1 for each keyword that occurs in the
  lower-cased message, at most 0.3, the sum capped at 1; the keywords are the first five
  words of the powers and the first five words of the personality that are longer than
  three characters. The score lies between 0 and 1.
\<close>

theorem enhanced_relevance_formula:
  "calculate_enhanced_relevance msg ch recent = spec_relevance_score 5 msg ch recent
   \<and> 0 \<le> calculate_enhanced_relevance msg ch recent
   \<and> calculate_enhanced_relevance msg ch recent \<le> 1"
proof -
  have lw: "leading_words f = take 5 (py_split (py_lower (case f of Some t \<Rightarrow> t | None \<Rightarrow> [])))" for f
    by (cases f) (simp_all add: leading_words_def py_split_def py_lower_def)
  have kw: "length (filter (\<lambda>keyword. length keyword > 3 \<and> py_in keyword (py_lower msg))
              (leading_words (powers_abilities ch) @ leading_words (personality ch)))
          = length (filter (\<lambda>k. sublist k (py_lower msg)) (spec_keywords 5 ch))"
    unfolding spec_keywords_def lw py_in_sublist filter_filter
    by (simp add: conj_commute)
  have rc: "(recent \<noteq> [] \<and> list_ex P (py_last_n 3 recent)) = list_ex P (py_last_n 3 recent)" for P
    by (cases recent) (simp_all add: py_last_n_def)
  have eq: "calculate_enhanced_relevance msg ch recent = spec_relevance_score 5 msg ch recent"
    unfolding calculate_enhanced_relevance_def spec_relevance_score_def Let_def
    unfolding kw rc
    unfolding py_in_sublist
    by (simp add: min_def)
  have "0 \<le> spec_relevance_score 5 msg ch recent \<and> spec_relevance_score 5 msg ch recent \<le> 1"
    unfolding spec_relevance_score_def by (simp add: min_def)
  with eq show ?thesis by simp
qed

section \<open>Trigger detection\<close>




















end
